theory Spec2Isabelle
  imports Complex_Main "HOL-Library.Word" "HOL-Library.Sublist"
begin

section \<open>Values shared by the services and the component\<close>

text \<open>
  Texts that come back from the remote model are JavaScript strings, that is sequences of
  UTF-16 code units; \<open>String.prototype.trim\<close> is defined on those code units. The literals of
  the program (messages, MIME prefixes, base64 payloads) are ASCII and are kept as \<open>string\<close>.
\<close>

type_synonym js_string = "16 word list"

datatype js_error = JsError string

text \<open>
  The part of a \<open>GenerateContentResponse\<close> that the two services read:
  \<open>response.text\<close> and \<open>response.candidates?.[0]?.content?.parts?.[0]?.inlineData?.data\<close>.
  Every link of the chain may be absent.
\<close>

datatype blob = Blob (data: "string option")
datatype part = Part (inlineData: "blob option")
datatype content = Content (parts: "part list option")
datatype candidate = Candidate (content: "content option")

record response =
  response_text :: "js_string option"
  candidates :: "candidate list option"

section \<open>services/geminiService.ts\<close>

text \<open>White space and line terminators of ECMAScript, the code units \<open>trim\<close> strips.\<close>

definition isWhiteSpace :: "16 word \<Rightarrow> bool" where
  "isWhiteSpace c \<longleftrightarrow>
     c \<in> set [0x0009, 0x000A, 0x000B, 0x000C, 0x000D, 0x0020, 0x00A0, 0x1680,
              0x2000, 0x2001, 0x2002, 0x2003, 0x2004, 0x2005, 0x2006, 0x2007,
              0x2008, 0x2009, 0x200A, 0x2028, 0x2029, 0x202F, 0x205F, 0x3000, 0xFEFF]"

definition trim :: "js_string \<Rightarrow> js_string" where
  "trim s = rev (dropWhile isWhiteSpace (rev (dropWhile isWhiteSpace s)))"

text \<open>
  \<open>generateStoryFromImage\<close>. The argument is how \<open>ai.models.generateContent\<close> settles:
  \<open>Inl\<close> when it rejects, \<open>Inr\<close> with the response otherwise. The result pairs what the
  function writes with \<open>console.error\<close> with what it returns or throws. Reading \<open>.trim()\<close>
  of an absent \<open>response.text\<close> is a TypeError raised inside the \<open>try\<close>, so it takes the
  \<open>catch\<close> branch as a rejection does.
\<close>

definition generateStoryFromImage ::
    "js_error + response \<Rightarrow> js_error list \<times> (js_error + js_string)" where
  "generateStoryFromImage settled =
     (case (case settled of
              Inl e \<Rightarrow> Inl e
            | Inr r \<Rightarrow> (case response_text r of
                          None \<Rightarrow> Inl (JsError ''TypeError'')
                        | Some t \<Rightarrow> Inr (trim t))) of
        Inr s \<Rightarrow> ([], Inr s)
      | Inl e \<Rightarrow>
          ([e], Inl (JsError ''Failed to communicate with the Gemini API for story generation.'')))"

definition first_opt :: "'a list \<Rightarrow> 'a option" where
  "first_opt xs = (case xs of [] \<Rightarrow> None | x # _ \<Rightarrow> Some x)"

definition audioData_of :: "response \<Rightarrow> string option" where
  "audioData_of r =
     Option.bind (Option.bind (Option.bind (Option.bind (Option.bind (Option.bind
       (candidates r) first_opt) content) parts) first_opt) inlineData) data"

text \<open>
  \<open>generateSpeechFromText\<close>. \<open>!audioData\<close> holds for an absent payload and for the empty
  string; the error thrown there is caught by the function's own \<open>catch\<close>, logged, and
  replaced by the generic one.
\<close>

definition generateSpeechFromText ::
    "js_error + response \<Rightarrow> js_error list \<times> (js_error + string)" where
  "generateSpeechFromText settled =
     (case (case settled of
              Inl e \<Rightarrow> Inl e
            | Inr r \<Rightarrow> (case audioData_of r of
                          None \<Rightarrow> Inl (JsError ''No audio data received from API.'')
                        | Some d \<Rightarrow>
                            if d = [] then Inl (JsError ''No audio data received from API.'')
                            else Inr d)) of
        Inr d \<Rightarrow> ([], Inr d)
      | Inl e \<Rightarrow>
          ([e], Inl (JsError ''Failed to communicate with the Gemini API for speech generation.'')))"

section \<open>App.tsx: the state of the component\<close>

datatype AppState = Idle | LoadingStory | LoadingAudio | Error

text \<open>A chosen \<open>File\<close>: its declared MIME type and what \<open>readAsDataURL\<close> yields for it.\<close>

record js_file =
  file_type :: string
  file_dataURL :: string

datatype ctx_state = Suspended | Running

record audio_pcm =
  sampleRate :: nat
  channelData :: "real list list"

text \<open>
  An \<open>AudioBufferSourceNode\<close> of the page. A node renders sound from \<open>start()\<close> until it is
  stopped or reaches the end of its buffer; its \<open>ended\<close> event is dispatched once, later.
\<close>

record source_node =
  node_buffer :: audio_pcm
  connected :: bool
  started :: bool
  stopped :: bool
  ended :: bool

text \<open>
  \<open>./utils/audioUtils\<close> exports \<open>decode\<close> and \<open>decodeAudioData\<close>; the component only calls
  them, inside its \<open>try\<close>, so they are parameters here and either may throw.
\<close>

record audioUtils =
  decode :: "string \<Rightarrow> js_error + 8 word list"
  decodeAudioData :: "8 word list \<Rightarrow> nat \<Rightarrow> nat \<Rightarrow> js_error + audio_pcm"

text \<open>Calls made to the two services, and asynchronous work that has not settled yet.\<close>

datatype call = StoryCall string string | SpeechCall js_string

datatype pending_op =
    AwaitRead js_file
  | AwaitStory
  | AwaitResume js_string
  | AwaitSpeech js_string

text \<open>
  The five \<open>useState\<close> cells and the two refs of \<open>App\<close>, followed by what the component
  acts on: the source nodes it has created, the console, the service calls issued so far
  and the operations in flight. Continuations read the refs and write the cells of the
  state current when they run; only \<open>story\<close> is captured when the click handler starts.
\<close>

record app =
  image_st :: "string option"
  story :: js_string
  status :: AppState
  error :: string
  isPlaying :: bool
  audioContextRef :: "ctx_state option"
  audioSourceRef :: "nat option"
  nodes :: "source_node list"
  console :: "js_error list"
  calls :: "call list"
  pending :: "pending_op list"

definition init :: app where
  "init = \<lparr>image_st = None, story = [], status = Idle, error = [], isPlaying = False,
           audioContextRef = None, audioSourceRef = None, nodes = [], console = [],
           calls = [], pending = []\<rparr>"

section \<open>App.tsx: choosing an image\<close>

definition handleImageChange :: "js_file list option \<Rightarrow> app \<Rightarrow> app" where
  "handleImageChange files st =
     (case files of
        None \<Rightarrow> st
      | Some fs \<Rightarrow>
          (case fs of
             [] \<Rightarrow> st
           | f # _ \<Rightarrow>
               if \<not> prefix ''image/'' (file_type f)
               then st\<lparr>error := ''Please upload a valid image file.'', status := Error\<rparr>
               else st\<lparr>pending := pending st @ [AwaitRead f]\<rparr>))"

text \<open>\<open>reader.onload\<close> up to its \<open>await\<close>: four state writes, then the service call.\<close>

definition reader_onload :: "js_file \<Rightarrow> app \<Rightarrow> app" where
  "reader_onload f st =
     (let base64Image = file_dataURL f;
          st1 = st\<lparr>image_st := Some base64Image, story := [], error := [],
                   status := LoadingStory\<rparr>
      in st1\<lparr>calls := calls st1 @ [StoryCall base64Image (file_type f)],
              pending := pending st1 @ [AwaitStory]\<rparr>)"

text \<open>\<open>reader.onload\<close> after its \<open>await\<close>, when \<open>generateStoryFromImage\<close> has settled.\<close>

definition story_settled :: "js_error + response \<Rightarrow> app \<Rightarrow> app" where
  "story_settled settled st =
     (case generateStoryFromImage settled of
        (logs, Inr generatedStory) \<Rightarrow>
          st\<lparr>console := console st @ logs, story := generatedStory, status := Idle\<rparr>
      | (logs, Inl err) \<Rightarrow>
          st\<lparr>console := console st @ logs @ [err],
             error := ''Failed to generate story. Please try again.'', status := Error\<rparr>)"

section \<open>App.tsx: playback\<close>

text \<open>
  \<open>AudioBufferSourceNode.stop()\<close> throws an InvalidStateError on a node that was never
  started; \<open>disconnect()\<close> does not throw.
\<close>

definition node_stop :: "nat \<Rightarrow> source_node list \<Rightarrow> js_error + source_node list" where
  "node_stop n ns =
     (if n < length ns \<and> started (ns ! n)
      then Inr (ns[n := (ns ! n)\<lparr>stopped := True\<rparr>])
      else Inl (JsError ''InvalidStateError''))"

definition node_disconnect :: "nat \<Rightarrow> source_node list \<Rightarrow> source_node list" where
  "node_disconnect n ns = (if n < length ns then ns[n := (ns ! n)\<lparr>connected := False\<rparr>] else ns)"

definition stopPlayback :: "app \<Rightarrow> js_error + app" where
  "stopPlayback st =
     (case audioSourceRef st of
        None \<Rightarrow> Inr (st\<lparr>isPlaying := False\<rparr>)
      | Some n \<Rightarrow>
          (case node_stop n (nodes st) of
             Inl e \<Rightarrow> Inl e
           | Inr ns \<Rightarrow>
               Inr (st\<lparr>nodes := node_disconnect n ns, audioSourceRef := None,
                       isPlaying := False\<rparr>)))"

text \<open>The \<open>catch\<close> branch of \<open>handleTogglePlayback\<close>.\<close>

definition audio_catch :: "js_error \<Rightarrow> app \<Rightarrow> app" where
  "audio_catch err st =
     st\<lparr>console := console st @ [err],
        error := ''Failed to generate audio. Please try again.'',
        status := Error, isPlaying := False\<rparr>"

definition speech_call :: "js_string \<Rightarrow> app \<Rightarrow> app" where
  "speech_call txt st =
     st\<lparr>calls := calls st @ [SpeechCall txt], pending := pending st @ [AwaitSpeech txt]\<rparr>"

text \<open>
  \<open>handleTogglePlayback\<close> up to its first \<open>await\<close>. \<open>newContext\<close> is what the
  \<open>AudioContext\<close> constructor does if it is called: it throws, or gives a context in some
  state. A context that is not suspended is not resumed, and the speech call is made at
  once. An exception of \<open>stopPlayback\<close> would leave the handler before any write.
\<close>

definition handleTogglePlayback :: "js_error + ctx_state \<Rightarrow> app \<Rightarrow> app" where
  "handleTogglePlayback newContext st =
     (if isPlaying st then (case stopPlayback st of Inl e \<Rightarrow> st | Inr st' \<Rightarrow> st')
      else if story st = [] then st
      else
        let st1 = st\<lparr>status := LoadingAudio, error := []\<rparr> in
        (case (case audioContextRef st1 of None \<Rightarrow> newContext | Some c \<Rightarrow> Inr c) of
           Inl e \<Rightarrow> audio_catch e st1
         | Inr c \<Rightarrow>
             let st2 = st1\<lparr>audioContextRef := Some c\<rparr> in
             if c = Suspended then st2\<lparr>pending := pending st2 @ [AwaitResume (story st)]\<rparr>
             else speech_call (story st) st2))"

text \<open>After \<open>await audioContextRef.current.resume()\<close>.\<close>

definition resume_settled :: "js_string \<Rightarrow> js_error option \<Rightarrow> app \<Rightarrow> app" where
  "resume_settled txt r st =
     (case r of
        Some e \<Rightarrow> audio_catch e st
      | None \<Rightarrow> speech_call txt (st\<lparr>audioContextRef := Some Running\<rparr>))"

text \<open>
  The rest of the \<open>try\<close> block up to \<open>decodeAudioData\<close>: the first of the three calls that
  throws decides the error; the buffer is decoded at 24000 Hz, one channel.
\<close>

definition speech_try ::
    "audioUtils \<Rightarrow> js_error + response \<Rightarrow> js_error list \<times> (js_error + audio_pcm)" where
  "speech_try u settled =
     (case generateSpeechFromText settled of
        (logs, r) \<Rightarrow>
          (logs,
           case r of
             Inl e \<Rightarrow> Inl e
           | Inr base64Audio \<Rightarrow>
               (case decode u base64Audio of
                  Inl e \<Rightarrow> Inl e
                | Inr audioBytes \<Rightarrow> decodeAudioData u audioBytes 24000 1)))"

text \<open>
  \<open>createBufferSource\<close>, \<open>connect\<close>, \<open>start\<close>, then the ref and the two state writes. The
  new node is the next index of \<open>nodes\<close>.
\<close>

definition play_source :: "audio_pcm \<Rightarrow> app \<Rightarrow> app" where
  "play_source audioBuffer st =
     (let source = length (nodes st) in
      st\<lparr>nodes := nodes st @ [\<lparr>node_buffer = audioBuffer, connected = True, started = True,
                                stopped = False, ended = False\<rparr>],
         audioSourceRef := Some source, isPlaying := True, status := Idle\<rparr>)"

definition speech_settled :: "audioUtils \<Rightarrow> js_error + response \<Rightarrow> app \<Rightarrow> app" where
  "speech_settled u settled st =
     (case speech_try u settled of
        (logs, r) \<Rightarrow>
          let st1 = st\<lparr>console := console st @ logs\<rparr> in
          (case r of
             Inl e \<Rightarrow> audio_catch e st1
           | Inr audioBuffer \<Rightarrow> play_source audioBuffer st1))"

text \<open>\<open>source.onended\<close>, with the node marked as no longer rendering.\<close>

definition source_onended :: "nat \<Rightarrow> app \<Rightarrow> app" where
  "source_onended n st =
     st\<lparr>nodes := (nodes st)[n := (nodes st ! n)\<lparr>stopped := True, ended := True\<rparr>],
        isPlaying := False, audioSourceRef := None\<rparr>"

section \<open>App.tsx: the events of the page\<close>

definition isLoading :: "app \<Rightarrow> bool" where
  "isLoading st \<longleftrightarrow> status st = LoadingStory \<or> status st = LoadingAudio"

text \<open>The \<open>disabled\<close> attribute of the playback button.\<close>

definition playback_disabled :: "app \<Rightarrow> bool" where
  "playback_disabled st \<longleftrightarrow> story st = [] \<or> status st = LoadingStory"

datatype event =
    FileChosen "js_file list option"
  | ReaderLoaded nat
  | StorySettled nat "js_error + response"
  | PlaybackClicked "js_error + ctx_state"
  | ResumeSettled nat "js_error option"
  | SpeechSettled nat "js_error + response"
  | SourceEnded nat

definition remove_nth :: "nat \<Rightarrow> 'a list \<Rightarrow> 'a list" where
  "remove_nth i xs = take i xs @ drop (Suc i) xs"

definition pending_at :: "nat \<Rightarrow> app \<Rightarrow> pending_op option" where
  "pending_at i st = (if i < length (pending st) then Some (pending st ! i) else None)"

definition settle :: "nat \<Rightarrow> app \<Rightarrow> app" where
  "settle i st = st\<lparr>pending := remove_nth i (pending st)\<rparr>"

text \<open>
  One event of the page. A disabled control delivers no event, an operation settles once,
  and a node dispatches \<open>ended\<close> once, after it was started; anything else leaves the state
  as it is.
\<close>

fun step :: "audioUtils \<Rightarrow> event \<Rightarrow> app \<Rightarrow> app" where
  "step u (FileChosen files) st =
     (if isLoading st then st else handleImageChange files st)"
| "step u (ReaderLoaded i) st =
     (case pending_at i st of
        Some (AwaitRead f) \<Rightarrow> reader_onload f (settle i st)
      | _ \<Rightarrow> st)"
| "step u (StorySettled i settled) st =
     (case pending_at i st of
        Some AwaitStory \<Rightarrow> story_settled settled (settle i st)
      | _ \<Rightarrow> st)"
| "step u (PlaybackClicked newContext) st =
     (if playback_disabled st then st else handleTogglePlayback newContext st)"
| "step u (ResumeSettled i r) st =
     (case pending_at i st of
        Some (AwaitResume txt) \<Rightarrow> resume_settled txt r (settle i st)
      | _ \<Rightarrow> st)"
| "step u (SpeechSettled i settled) st =
     (case pending_at i st of
        Some (AwaitSpeech txt) \<Rightarrow> speech_settled u settled (settle i st)
      | _ \<Rightarrow> st)"
| "step u (SourceEnded n) st =
     (if n < length (nodes st) \<and> started (nodes st ! n) \<and> \<not> ended (nodes st ! n)
      then source_onended n st else st)"

fun run :: "audioUtils \<Rightarrow> event list \<Rightarrow> app \<Rightarrow> app" where
  "run u [] st = st"
| "run u (e # es) st = run u es (step u e st)"

text \<open>The nodes that are rendering sound: started and not yet stopped or finished.\<close>

definition rendering :: "app \<Rightarrow> nat list" where
  "rendering st =
     filter (\<lambda>n. started (nodes st ! n) \<and> \<not> stopped (nodes st ! n)) [0..<length (nodes st)]"

section \<open>utils/audioUtils: the PCM decoder\<close>

datatype codec_error = InvalidAudioFormatError

text \<open>
  Modelled from the spec: \<open>utils/audioUtils\<close> is not among the sources; two consecutive
  bytes are read as one signed 16-bit little-endian integer, low byte first, with the
  two's complement written out.
\<close>

definition int16le :: "8 word \<Rightarrow> 8 word \<Rightarrow> int" where
  "int16le lo hi =
     (let v = uint lo + 256 * uint hi in if v < 32768 then v else v - 65536)"

text \<open>
  Modelled from the spec: \<open>utils/audioUtils\<close> is not among the sources; the bytes are a
  contiguous sequence of such integers, and a trailing byte that has no partner is
  discarded.
\<close>

fun pcm16_samples :: "8 word list \<Rightarrow> int list" where
  "pcm16_samples (lo # hi # bs) = int16le lo hi # pcm16_samples bs"
| "pcm16_samples _ = []"

text \<open>
  Modelled from the spec: \<open>utils/audioUtils\<close> is not among the sources
  (\<open>pcm16ToFloatBuffer\<close> is the spec's name for \<open>decodeAudioData\<close>). It fails on a zero
  length; otherwise each channel gets \<open>floor(byteLength / 2 / channelCount)\<close> samples,
  sample \<open>i\<close> of channel \<open>ch\<close> being integer \<open>i * channelCount + ch\<close> of the interleaved
  sequence divided by 32768. The spec says nothing of a channel count of zero.
\<close>

definition pcm16ToFloatBuffer :: "8 word list \<Rightarrow> nat \<Rightarrow> nat \<Rightarrow> codec_error + audio_pcm" where
  "pcm16ToFloatBuffer bytes rate channelCount =
     (if length bytes = 0 then Inl InvalidAudioFormatError
      else
        let samples = pcm16_samples bytes;
            frames = length bytes div 2 div channelCount
        in Inr \<lparr>sampleRate = rate,
                 channelData =
                   map (\<lambda>ch. map (\<lambda>i. real_of_int (samples ! (i * channelCount + ch)) / 32768)
                                [0..<frames])
                       [0..<channelCount]\<rparr>)"

section \<open>The invariant of the source ref, and a sample session\<close>

text \<open>
  What every reachable state satisfies: a ref that is set names a node that was started,
  and \<open>isPlaying\<close> is only true while the ref is set.
\<close>

definition source_ok :: "app \<Rightarrow> bool" where
  "source_ok st \<longleftrightarrow>
     (case audioSourceRef st of
        None \<Rightarrow> \<not> isPlaying st
      | Some n \<Rightarrow> n < length (nodes st) \<and> started (nodes st ! n))"

text \<open>
  Concrete inputs for the examples below: a JPEG file, a story response whose text is
  \<open>" Once\n"\<close>, a speech response whose payload is the base64 of the bytes 00 00 FF 7F, and
  decoders that accept it.
\<close>

definition sample_utils :: audioUtils where
  "sample_utils =
     \<lparr>decode = (\<lambda>s. Inr [0, 0, 0xFF, 0x7F]),
      decodeAudioData = (\<lambda>bs r c. Inr \<lparr>sampleRate = r, channelData = [[0, 32767 / 32768]]\<rparr>)\<rparr>"

definition jpeg_file :: js_file where
  "jpeg_file = \<lparr>file_type = ''image/jpeg'', file_dataURL = ''data:image/jpeg;base64,AA==''\<rparr>"

definition pdf_file :: js_file where
  "pdf_file =
     \<lparr>file_type = ''application/pdf'', file_dataURL = ''data:application/pdf;base64,AA==''\<rparr>"

definition story_response :: response where
  "story_response =
     \<lparr>response_text = Some [0x20, 0x4F, 0x6E, 0x63, 0x65, 0x0A], candidates = None\<rparr>"

definition audio_response :: response where
  "audio_response =
     \<lparr>response_text = None,
      candidates =
        Some [Candidate (Some (Content (Some [Part (Some (Blob (Some ''AAD/fw=='')))])))]\<rparr>"

definition empty_response :: response where
  "empty_response = \<lparr>response_text = None, candidates = Some []\<rparr>"

text \<open>The state after a JPEG was chosen, read, and its story generated.\<close>

definition story_ready :: app where
  "story_ready =
     \<lparr>image_st = Some ''data:image/jpeg;base64,AA=='', story = [0x4F, 0x6E, 0x63, 0x65],
      status = Idle, error = [], isPlaying = False, audioContextRef = None,
      audioSourceRef = None, nodes = [], console = [],
      calls = [StoryCall ''data:image/jpeg;base64,AA=='' ''image/jpeg''], pending = []\<rparr>"

definition choose_and_generate :: "event list" where
  "choose_and_generate =
     [FileChosen (Some [jpeg_file]), ReaderLoaded 0, StorySettled 0 (Inr story_response)]"

definition read_aloud :: "event list" where
  "read_aloud = [PlaybackClicked (Inr Running), SpeechSettled 0 (Inr audio_response)]"

text \<open>Two clicks on the playback button while the first speech call is still in flight.\<close>

definition read_aloud_twice :: "event list" where
  "read_aloud_twice =
     [PlaybackClicked (Inr Running), PlaybackClicked (Inr Running),
      SpeechSettled 0 (Inr audio_response)]"

definition sample_node :: source_node where
  "sample_node =
     \<lparr>node_buffer = \<lparr>sampleRate = 24000, channelData = [[0, 32767 / 32768]]\<rparr>,
      connected = True, started = True, stopped = False, ended = False\<rparr>"

definition png_file :: js_file where
  "png_file = \<lparr>file_type = ''image/png'', file_dataURL = ''data:image/png;base64,AA==''\<rparr>"

text \<open>Decoders of which one throws: \<open>decode\<close> on its text, or \<open>decodeAudioData\<close> on its bytes.\<close>

definition decode_throws :: audioUtils where
  "decode_throws = sample_utils\<lparr>decode := (\<lambda>s. Inl (JsError ''InvalidCharacterError''))\<rparr>"

definition decodeAudioData_throws :: audioUtils where
  "decodeAudioData_throws =
     sample_utils\<lparr>decodeAudioData := (\<lambda>bs r c. Inl (JsError ''RangeError''))\<rparr>"

text \<open>
  The page after both speech calls of \<open>read_aloud_twice\<close> have settled.
\<close>

definition double_started :: app where
  "double_started =
     step sample_utils (SpeechSettled 0 (Inr audio_response))
       (run sample_utils (choose_and_generate @ read_aloud_twice) init)"

text \<open>
  Two files chosen before the reader has loaded either; both are then read, and the story
  call of the first succeeds while that of the second is still in flight.
\<close>

definition overlapping_choices :: "event list" where
  "overlapping_choices =
     [FileChosen (Some [jpeg_file]), FileChosen (Some [png_file]), ReaderLoaded 0,
      ReaderLoaded 0, StorySettled 0 (Inr story_response)]"

text \<open>The events that are the successful completion of a story call.\<close>

fun story_call_succeeds :: "event \<Rightarrow> bool" where
  "story_call_succeeds (StorySettled i r) =
     (case snd (generateStoryFromImage r) of Inl e \<Rightarrow> False | Inr t \<Rightarrow> True)"
| "story_call_succeeds _ = False"

section \<open>Evaluating the sample session\<close>

lemmas app_defs = init_def jpeg_file_def pdf_file_def png_file_def story_response_def audio_response_def
  empty_response_def sample_utils_def story_ready_def sample_node_def
  isLoading_def handleImageChange_def pending_at_def settle_def remove_nth_def reader_onload_def
  story_settled_def generateStoryFromImage_def trim_def isWhiteSpace_def playback_disabled_def
  handleTogglePlayback_def speech_call_def speech_settled_def speech_try_def
  generateSpeechFromText_def audioData_of_def first_opt_def play_source_def
  stopPlayback_def node_stop_def node_disconnect_def audio_catch_def Let_def

lemma run_append: "run u (xs @ ys) st = run u ys (run u xs st)"
  by (induction xs arbitrary: st) simp_all

lemma run_choose_and_generate: "run sample_utils choose_and_generate init = story_ready"
  by (simp add: choose_and_generate_def app_defs)

lemma run_read_aloud:
  "run sample_utils read_aloud story_ready =
     story_ready\<lparr>audioContextRef := Some Running, audioSourceRef := Some 0, isPlaying := True,
       nodes := [sample_node],
       calls := calls story_ready @ [SpeechCall [0x4F, 0x6E, 0x63, 0x65]]\<rparr>"
  by (simp add: read_aloud_def app_defs)

lemma run_read_aloud_twice:
  "run sample_utils read_aloud_twice story_ready =
     story_ready\<lparr>audioContextRef := Some Running, audioSourceRef := Some 0, isPlaying := True,
       nodes := [sample_node],
       calls := calls story_ready @
         [SpeechCall [0x4F, 0x6E, 0x63, 0x65], SpeechCall [0x4F, 0x6E, 0x63, 0x65]],
       pending := [AwaitSpeech [0x4F, 0x6E, 0x63, 0x65]]\<rparr>"
  by (simp add: read_aloud_twice_def app_defs)

lemma second_speech_settles:
  "step sample_utils (SpeechSettled 0 (Inr audio_response))
     (story_ready\<lparr>audioContextRef := Some Running, audioSourceRef := Some 0, isPlaying := True,
       nodes := [sample_node],
       calls := calls story_ready @
         [SpeechCall [0x4F, 0x6E, 0x63, 0x65], SpeechCall [0x4F, 0x6E, 0x63, 0x65]],
       pending := [AwaitSpeech [0x4F, 0x6E, 0x63, 0x65]]\<rparr>) =
     story_ready\<lparr>audioContextRef := Some Running, audioSourceRef := Some 1, isPlaying := True,
       nodes := [sample_node, sample_node],
       calls := calls story_ready @
         [SpeechCall [0x4F, 0x6E, 0x63, 0x65], SpeechCall [0x4F, 0x6E, 0x63, 0x65]]\<rparr>"
  by (simp add: app_defs)

lemma rendering_one: "nodes st = [sample_node] \<Longrightarrow> rendering st = [0]"
  by (simp add: rendering_def sample_node_def)

lemma rendering_two: "nodes st = [sample_node, sample_node] \<Longrightarrow> rendering st = [0, 1]"
  by (simp add: rendering_def sample_node_def upt_rec)

section \<open>One playback session at a time\<close>

text \<open>
  C1. The claim is that a new audio source is started only after the previous one was
  torn down, and never while a session is playing. The playback button is disabled for an
  empty story and during story generation, but not while audio is being generated, and the
  handler only looks at \<open>isPlaying\<close>, which is still false then. So from the initial page:
  a JPEG is chosen and its story generated, the button is clicked twice, and the first
  speech call settles; the page is playing node 0. When the second call settles, a second
  node is started while node 0 still renders, and the ref now names node 1 only.
\<close>

theorem two_sources_rendering:
  "isPlaying (run sample_utils (choose_and_generate @ read_aloud_twice) init) \<and>
   rendering (run sample_utils (choose_and_generate @ read_aloud_twice) init) = [0] \<and>
   audioSourceRef (run sample_utils (choose_and_generate @ read_aloud_twice) init) = Some 0 \<and>
   rendering (step sample_utils (SpeechSettled 0 (Inr audio_response))
                (run sample_utils (choose_and_generate @ read_aloud_twice) init)) = [0, 1] \<and>
   audioSourceRef (step sample_utils (SpeechSettled 0 (Inr audio_response))
                (run sample_utils (choose_and_generate @ read_aloud_twice) init)) = Some 1"
  unfolding run_append run_choose_and_generate run_read_aloud_twice second_speech_settles
  by (simp add: rendering_one rendering_two)

section \<open>The PCM decoder\<close>

lemma int16le_range: "- 32768 \<le> int16le lo hi \<and> int16le lo hi < 32768"
proof -
  have b: "uint lo < 256" "uint hi < 256"
    using uint_lt2p[of lo] uint_lt2p[of hi] by simp_all
  have nn: "0 \<le> uint lo" "0 \<le> uint hi" by simp_all
  show ?thesis
  proof (cases "uint lo + 256 * uint hi < 32768")
    case True
    then have "int16le lo hi = uint lo + 256 * uint hi" by (simp add: int16le_def Let_def)
    with True nn show ?thesis by linarith
  next
    case False
    then have "int16le lo hi = uint lo + 256 * uint hi - 65536"
      by (simp add: int16le_def Let_def)
    with False b show ?thesis by linarith
  qed
qed

lemma length_pcm16_samples: "length (pcm16_samples bs) = length bs div 2"
  by (induction bs rule: pcm16_samples.induct) simp_all

lemma nth_pcm16_samples:
  "k < length bs div 2 \<Longrightarrow> pcm16_samples bs ! k = int16le (bs ! (2 * k)) (bs ! (2 * k + 1))"
proof (induction bs arbitrary: k rule: pcm16_samples.induct)
  case (1 lo hi bs)
  then show ?case by (cases k) simp_all
qed simp_all

lemma frame_index:
  assumes "i < n div c" "ch < c"
  shows "i * c + ch < (n::nat)"
proof -
  have "i * c + ch < Suc i * c" using assms by simp
  also have "\<dots> \<le> (n div c) * c" using assms by (intro mult_le_mono1) simp
  also have "\<dots> \<le> n" by simp
  finally show ?thesis .
qed

text \<open>
  C2. For a byte buffer of even length L > 0 and a channel count c > 0, the decoder
  succeeds with c channels of exactly L/2/c samples each; sample i of channel ch is the
  signed little-endian 16-bit integer at bytes 2(ic + ch) and 2(ic + ch) + 1, divided by
  32768, and lies in [-1, 1).
\<close>

theorem pcm16ToFloatBuffer_samples:
  assumes "even (length bytes)" "0 < length bytes" "0 < c"
  shows "\<exists>pcm. pcm16ToFloatBuffer bytes rate c = Inr pcm \<and> length (channelData pcm) = c \<and>
     (\<forall>ch<c. length (channelData pcm ! ch) = length bytes div 2 div c \<and>
        (\<forall>i < length bytes div 2 div c.
            channelData pcm ! ch ! i =
              real_of_int (int16le (bytes ! (2 * (i * c + ch))) (bytes ! (2 * (i * c + ch) + 1)))
                / 32768 \<and>
            - 1 \<le> channelData pcm ! ch ! i \<and> channelData pcm ! ch ! i < 1))"
proof -
  let ?n = "length bytes div 2"
  let ?pcm = "\<lparr>sampleRate = rate,
                 channelData =
                   map (\<lambda>ch. map (\<lambda>i. real_of_int (pcm16_samples bytes ! (i * c + ch)) / 32768)
                                [0..<?n div c])
                       [0..<c]\<rparr>"
  have eq: "pcm16ToFloatBuffer bytes rate c = Inr ?pcm"
    using assms(2) by (simp add: pcm16ToFloatBuffer_def Let_def)
  have samp: "channelData ?pcm ! ch ! i =
        real_of_int (int16le (bytes ! (2 * (i * c + ch))) (bytes ! (2 * (i * c + ch) + 1))) / 32768"
    if "ch < c" "i < ?n div c" for ch i
    using that frame_index[OF that(2) that(1)] by (simp add: nth_pcm16_samples)
  have rng: "- 1 \<le> real_of_int (int16le a b) / 32768 \<and> real_of_int (int16le a b) / 32768 < 1"
    for a b
    using int16le_range[of a b] by simp
  show ?thesis
    apply (rule exI[of _ ?pcm])
    using eq samp rng by simp
qed

theorem pcm16ToFloatBuffer_samples_witness:
  "even (length [0, 0, 0xFF, 0x7F :: 8 word]) \<and> 0 < length [0, 0, 0xFF, 0x7F :: 8 word] \<and>
   (0::nat) < 1 \<and>
   pcm16ToFloatBuffer [0, 0, 0xFF, 0x7F] 24000 1 =
     Inr \<lparr>sampleRate = 24000, channelData = [[0, 32767 / 32768]]\<rparr>"
  using pcm16ToFloatBuffer_samples[of "[0, 0, 0xFF, 0x7F]" 1 24000]
  by (simp add: pcm16ToFloatBuffer_def int16le_def Let_def)

section \<open>Rejecting a file that is not an image\<close>

text \<open>
  C3. For a selected file whose MIME type does not start with \<open>image/\<close>, the handler goes
  straight to the Error status with the message "Please upload a valid image file.", makes
  no service call and starts no read that could lead to one.
\<close>

theorem non_image_rejected:
  assumes "\<not> prefix ''image/'' (file_type f)"
  shows "status (handleImageChange (Some (f # fs)) st) = Error \<and>
         error (handleImageChange (Some (f # fs)) st) = ''Please upload a valid image file.'' \<and>
         calls (handleImageChange (Some (f # fs)) st) = calls st \<and>
         pending (handleImageChange (Some (f # fs)) st) = pending st"
  using assms by (simp add: handleImageChange_def)

theorem non_image_rejected_witness:
  "\<not> prefix ''image/'' (file_type pdf_file) \<and>
   status (handleImageChange (Some [pdf_file]) init) = Error \<and>
   error (handleImageChange (Some [pdf_file]) init) = ''Please upload a valid image file.'' \<and>
   calls (handleImageChange (Some [pdf_file]) init) = []"
proof -
  have h: "\<not> prefix ''image/'' (file_type pdf_file)"
    by (simp add: pdf_file_def)
  show ?thesis using h non_image_rejected[OF h, of "[]" init] by (simp add: init_def)
qed

text \<open>
  C10. When a file is rejected for not being an image, the new state is the old one with
  only the error message and the status replaced: the image, the story, the playing flag,
  the source ref and the nodes (so the rendering ones) are as before, and the playback
  button is enabled exactly when there is a story.
\<close>

theorem rejection_frame:
  assumes "\<not> prefix ''image/'' (file_type f)"
  shows "handleImageChange (Some (f # fs)) st =
           st\<lparr>error := ''Please upload a valid image file.'', status := Error\<rparr> \<and>
         image_st (handleImageChange (Some (f # fs)) st) = image_st st \<and>
         story (handleImageChange (Some (f # fs)) st) = story st \<and>
         isPlaying (handleImageChange (Some (f # fs)) st) = isPlaying st \<and>
         audioSourceRef (handleImageChange (Some (f # fs)) st) = audioSourceRef st \<and>
         nodes (handleImageChange (Some (f # fs)) st) = nodes st \<and>
         rendering (handleImageChange (Some (f # fs)) st) = rendering st \<and>
         playback_disabled (handleImageChange (Some (f # fs)) st) = (story st = [])"
  using assms by (simp add: handleImageChange_def rendering_def playback_disabled_def)

theorem rejection_frame_witness:
  "\<not> prefix ''image/'' (file_type pdf_file) \<and>
   story (handleImageChange (Some [pdf_file]) story_ready) = [0x4F, 0x6E, 0x63, 0x65] \<and>
   image_st (handleImageChange (Some [pdf_file]) story_ready) =
     Some ''data:image/jpeg;base64,AA=='' \<and>
   \<not> playback_disabled (handleImageChange (Some [pdf_file]) story_ready)"
proof -
  have h: "\<not> prefix ''image/'' (file_type pdf_file)"
    by (simp add: pdf_file_def)
  show ?thesis using h rejection_frame[OF h, of "[]" story_ready]
    by (simp add: story_ready_def playback_disabled_def)
qed

section \<open>Failures of the audio phase\<close>

text \<open>
  C4. Whenever the audio phase fails, the state is the one before with the status Error,
  the one message "Failed to generate audio. Please try again." whatever the error was,
  the playing flag false, and the error itself appended to the console only. The phase
  fails when the speech call throws, when \<open>decode\<close> throws on the payload, when
  \<open>decodeAudioData\<close> throws on the decoded bytes, when \<open>resume\<close> rejects, and when the audio
  context cannot be created.
\<close>

theorem audio_failure_generic:
  "(generateSpeechFromText settled = (logs, Inl e) \<longrightarrow>
      speech_settled u settled st =
        st\<lparr>console := console st @ logs @ [e],
           error := ''Failed to generate audio. Please try again.'',
           status := Error, isPlaying := False\<rparr>) \<and>
   (generateSpeechFromText settled = (logs, Inr base64Audio) \<and>
    decode u base64Audio = Inl e \<longrightarrow>
      speech_settled u settled st =
        st\<lparr>console := console st @ logs @ [e],
           error := ''Failed to generate audio. Please try again.'',
           status := Error, isPlaying := False\<rparr>) \<and>
   (generateSpeechFromText settled = (logs, Inr base64Audio) \<and>
    decode u base64Audio = Inr audioBytes \<and>
    decodeAudioData u audioBytes 24000 1 = Inl e \<longrightarrow>
      speech_settled u settled st =
        st\<lparr>console := console st @ logs @ [e],
           error := ''Failed to generate audio. Please try again.'',
           status := Error, isPlaying := False\<rparr>) \<and>
   resume_settled txt (Some e) st =
        st\<lparr>console := console st @ [e],
           error := ''Failed to generate audio. Please try again.'',
           status := Error, isPlaying := False\<rparr> \<and>
   (\<not> isPlaying st \<and> story st \<noteq> [] \<and> audioContextRef st = None \<longrightarrow>
      handleTogglePlayback (Inl e) st =
        st\<lparr>console := console st @ [e],
           error := ''Failed to generate audio. Please try again.'',
           status := Error, isPlaying := False\<rparr>)"
  by (simp add: speech_settled_def speech_try_def resume_settled_def handleTogglePlayback_def
      audio_catch_def Let_def)

lemma audio_response_payload:
  "generateSpeechFromText (Inr audio_response) = ([], Inr ''AAD/fw=='')"
  by (simp add: generateSpeechFromText_def audioData_of_def audio_response_def first_opt_def)

theorem audio_failure_generic_witness:
  "generateSpeechFromText (Inl (JsError ''network'')) =
     ([JsError ''network''],
      Inl (JsError ''Failed to communicate with the Gemini API for speech generation.'')) \<and>
   generateSpeechFromText (Inr audio_response) = ([], Inr ''AAD/fw=='') \<and>
   decode decode_throws ''AAD/fw=='' = Inl (JsError ''InvalidCharacterError'') \<and>
   decode decodeAudioData_throws ''AAD/fw=='' = Inr [0, 0, 0xFF, 0x7F] \<and>
   decodeAudioData decodeAudioData_throws [0, 0, 0xFF, 0x7F] 24000 1 =
     Inl (JsError ''RangeError'') \<and>
   \<not> isPlaying story_ready \<and> story story_ready \<noteq> [] \<and> audioContextRef story_ready = None \<and>
   speech_settled sample_utils (Inl (JsError ''network'')) story_ready =
     story_ready\<lparr>console := [JsError ''network'',
          JsError ''Failed to communicate with the Gemini API for speech generation.''],
        error := ''Failed to generate audio. Please try again.'', status := Error\<rparr> \<and>
   speech_settled decode_throws (Inr audio_response) story_ready =
     story_ready\<lparr>console := [JsError ''InvalidCharacterError''],
        error := ''Failed to generate audio. Please try again.'', status := Error\<rparr> \<and>
   speech_settled decodeAudioData_throws (Inr audio_response) story_ready =
     story_ready\<lparr>console := [JsError ''RangeError''],
        error := ''Failed to generate audio. Please try again.'', status := Error\<rparr> \<and>
   handleTogglePlayback (Inl (JsError ''NotSupportedError'')) story_ready =
     story_ready\<lparr>console := [JsError ''NotSupportedError''],
        error := ''Failed to generate audio. Please try again.'', status := Error\<rparr>"
proof -
  have h1: "generateSpeechFromText (Inl (JsError ''network'')) =
     ([JsError ''network''],
      Inl (JsError ''Failed to communicate with the Gemini API for speech generation.''))"
    by (simp add: generateSpeechFromText_def)
  have h2: "generateSpeechFromText (Inr audio_response) = ([], Inr ''AAD/fw=='')"
    by (rule audio_response_payload)
  have h3: "decode decode_throws ''AAD/fw=='' = Inl (JsError ''InvalidCharacterError'')"
    by (simp add: decode_throws_def)
  have h4: "decode decodeAudioData_throws ''AAD/fw=='' = Inr [0, 0, 0xFF, 0x7F]"
    by (simp add: decodeAudioData_throws_def sample_utils_def)
  have h5: "decodeAudioData decodeAudioData_throws [0, 0, 0xFF, 0x7F] 24000 1 =
     Inl (JsError ''RangeError'')"
    by (simp add: decodeAudioData_throws_def)
  have h6: "\<not> isPlaying story_ready \<and> story story_ready \<noteq> [] \<and>
      audioContextRef story_ready = None"
    by (simp add: story_ready_def)
  have a: "speech_settled sample_utils (Inl (JsError ''network'')) story_ready =
     story_ready\<lparr>console := [JsError ''network'',
          JsError ''Failed to communicate with the Gemini API for speech generation.''],
        error := ''Failed to generate audio. Please try again.'', status := Error\<rparr>"
    using h1
      audio_failure_generic[of "Inl (JsError ''network'')" "[JsError ''network'']"
        "JsError ''Failed to communicate with the Gemini API for speech generation.''"
        sample_utils story_ready "[]" "[]" "[]"]
    by (simp add: story_ready_def)
  have b: "speech_settled decode_throws (Inr audio_response) story_ready =
     story_ready\<lparr>console := [JsError ''InvalidCharacterError''],
        error := ''Failed to generate audio. Please try again.'', status := Error\<rparr>"
    using h2 h3
      audio_failure_generic[of "Inr audio_response" "[]" "JsError ''InvalidCharacterError''"
        decode_throws story_ready "''AAD/fw==''" "[]" "[]"]
    by (simp add: story_ready_def)
  have c: "speech_settled decodeAudioData_throws (Inr audio_response) story_ready =
     story_ready\<lparr>console := [JsError ''RangeError''],
        error := ''Failed to generate audio. Please try again.'', status := Error\<rparr>"
    using h2 h4 h5
      audio_failure_generic[of "Inr audio_response" "[]" "JsError ''RangeError''"
        decodeAudioData_throws story_ready "''AAD/fw==''" "[0, 0, 0xFF, 0x7F]" "[]"]
    by (simp add: story_ready_def)
  have d: "handleTogglePlayback (Inl (JsError ''NotSupportedError'')) story_ready =
     story_ready\<lparr>console := [JsError ''NotSupportedError''],
        error := ''Failed to generate audio. Please try again.'', status := Error\<rparr>"
    using h6
      audio_failure_generic[of "Inl (JsError ''network'')" "[]" "JsError ''NotSupportedError''"
        sample_utils story_ready "[]" "[]" "[]"]
    by (simp add: story_ready_def)
  from h1 h2 h3 h4 h5 h6 a b c d show ?thesis by (simp only: simp_thms)
qed

text \<open>
  C5. If the speech response holds no audio payload (absent, or the empty string), the
  service call fails with its generic error, and the component ends with the status Error
  and the playing flag false, having created no node and left the source ref alone.
\<close>

theorem no_audio_payload:
  assumes "audioData_of r = None \<or> audioData_of r = Some []"
  shows "snd (generateSpeechFromText (Inr r)) =
           Inl (JsError ''Failed to communicate with the Gemini API for speech generation.'') \<and>
         status (speech_settled u (Inr r) st) = Error \<and>
         \<not> isPlaying (speech_settled u (Inr r) st) \<and>
         nodes (speech_settled u (Inr r) st) = nodes st \<and>
         audioSourceRef (speech_settled u (Inr r) st) = audioSourceRef st \<and>
         rendering (speech_settled u (Inr r) st) = rendering st"
  using assms
  by (auto simp add: generateSpeechFromText_def speech_settled_def speech_try_def audio_catch_def
      rendering_def Let_def)

theorem no_audio_payload_witness:
  "(audioData_of empty_response = None \<or> audioData_of empty_response = Some []) \<and>
   status (speech_settled sample_utils (Inr empty_response) story_ready) = Error \<and>
   \<not> isPlaying (speech_settled sample_utils (Inr empty_response) story_ready) \<and>
   nodes (speech_settled sample_utils (Inr empty_response) story_ready) = []"
proof -
  have h: "audioData_of empty_response = None \<or> audioData_of empty_response = Some []"
    by (simp add: audioData_of_def empty_response_def first_opt_def)
  show ?thesis
    using h no_audio_payload[OF h, of sample_utils story_ready] by (simp add: story_ready_def)
qed

section \<open>When a playback toggle is ignored\<close>

text \<open>
  C6. In every state whose story is empty and in every state whose status is
  LoadingStory, a click on the playback button changes nothing at all: no field of the
  state, no service call, no operation in flight. The button is disabled there; and the
  handler itself returns at once for an empty story when nothing is playing.
\<close>

theorem toggle_ignored:
  assumes "story st = [] \<or> status st = LoadingStory"
  shows "step u (PlaybackClicked c) st = st \<and>
         (\<not> isPlaying st \<and> story st = [] \<longrightarrow> handleTogglePlayback c st = st)"
  using assms by (auto simp add: playback_disabled_def handleTogglePlayback_def)

theorem toggle_ignored_witness:
  "(story init = [] \<or> status init = LoadingStory) \<and> \<not> isPlaying init \<and> story init = [] \<and>
   step sample_utils (PlaybackClicked (Inr Running)) init = init \<and>
   handleTogglePlayback (Inr Running) init = init"
proof -
  have h: "story init = [] \<or> status init = LoadingStory" by (simp add: init_def)
  have h2: "\<not> isPlaying init \<and> story init = []" by (simp add: init_def)
  show ?thesis using h h2 toggle_ignored[OF h, of sample_utils "Inr Running"] by simp
qed

section \<open>Stopping playback\<close>

lemma source_ok_frame:
  "audioSourceRef st' = audioSourceRef st \<Longrightarrow> nodes st' = nodes st \<Longrightarrow>
   (isPlaying st' \<longrightarrow> isPlaying st) \<Longrightarrow> source_ok st \<Longrightarrow> source_ok st'"
  by (auto simp: source_ok_def split: option.splits)

lemma source_ok_handleImageChange: "source_ok st \<Longrightarrow> source_ok (handleImageChange files st)"
  by (rule source_ok_frame[of _ st])
     (auto simp: handleImageChange_def split: option.splits list.splits)

lemma source_ok_settle: "source_ok st \<Longrightarrow> source_ok (settle i st)"
  by (rule source_ok_frame[of _ st]) (auto simp: settle_def)

lemma source_ok_reader_onload: "source_ok st \<Longrightarrow> source_ok (reader_onload f st)"
  by (rule source_ok_frame[of _ st]) (auto simp: reader_onload_def Let_def)

lemma source_ok_story_settled: "source_ok st \<Longrightarrow> source_ok (story_settled r st)"
  by (rule source_ok_frame[of _ st]) (auto simp: story_settled_def split: prod.splits sum.splits)

lemma source_ok_audio_catch: "source_ok st \<Longrightarrow> source_ok (audio_catch e st)"
  by (rule source_ok_frame[of _ st]) (auto simp: audio_catch_def)

lemma source_ok_speech_call: "source_ok st \<Longrightarrow> source_ok (speech_call t st)"
  by (rule source_ok_frame[of _ st]) (auto simp: speech_call_def)

lemma source_ok_play_source: "source_ok (play_source b st)"
  by (simp add: source_ok_def play_source_def Let_def)

lemma source_ok_source_onended: "source_ok (source_onended n st)"
  by (simp add: source_ok_def source_onended_def)

lemma stopPlayback_result:
  "stopPlayback st = Inr st' \<Longrightarrow> audioSourceRef st' = None \<and> \<not> isPlaying st'"
  by (auto simp: stopPlayback_def split: option.splits sum.splits)

lemma source_ok_stopPlayback: "stopPlayback st = Inr st' \<Longrightarrow> source_ok st'"
  by (drule stopPlayback_result) (simp add: source_ok_def)

lemma source_ok_handleTogglePlayback:
  "source_ok st \<Longrightarrow> source_ok (handleTogglePlayback c st)"
proof -
  assume ok: "source_ok st"
  have ok1: "source_ok (st\<lparr>status := LoadingAudio, error := []\<rparr>)"
    by (rule source_ok_frame[OF _ _ _ ok]) simp_all
  have ok2: "source_ok (st\<lparr>status := LoadingAudio, error := [], audioContextRef := Some c'\<rparr>)"
    for c'
    by (rule source_ok_frame[OF _ _ _ ok]) simp_all
  have ok3: "source_ok (st\<lparr>status := LoadingAudio, error := [], audioContextRef := Some c',
      pending := p\<rparr>)" for c' p
    by (rule source_ok_frame[OF _ _ _ ok]) simp_all
  show ?thesis
    using ok ok1 ok2 ok3
    by (auto simp: handleTogglePlayback_def Let_def source_ok_audio_catch source_ok_speech_call
        source_ok_stopPlayback split: sum.splits option.splits)
qed

lemma source_ok_resume_settled: "source_ok st \<Longrightarrow> source_ok (resume_settled t r st)"
proof -
  assume ok: "source_ok st"
  have "source_ok (st\<lparr>audioContextRef := Some Running\<rparr>)"
    by (rule source_ok_frame[OF _ _ _ ok]) simp_all
  then show ?thesis using ok
    by (auto simp: resume_settled_def source_ok_audio_catch source_ok_speech_call
        split: option.splits)
qed

lemma source_ok_speech_settled: "source_ok st \<Longrightarrow> source_ok (speech_settled u r st)"
proof -
  assume ok: "source_ok st"
  have "source_ok (st\<lparr>console := l\<rparr>)" for l
    by (rule source_ok_frame[OF _ _ _ ok]) simp_all
  then show ?thesis
    by (auto simp: speech_settled_def Let_def source_ok_audio_catch source_ok_play_source
        split: prod.splits sum.splits)
qed

lemma source_ok_step: "source_ok st \<Longrightarrow> source_ok (step u e st)"
  by (cases e)
     (auto simp: source_ok_handleImageChange source_ok_settle source_ok_reader_onload
        source_ok_story_settled source_ok_handleTogglePlayback source_ok_resume_settled
        source_ok_speech_settled source_ok_source_onended
        split: option.splits pending_op.splits)

lemma source_ok_run: "source_ok st \<Longrightarrow> source_ok (run u es st)"
  by (induction es arbitrary: st) (simp_all add: source_ok_step)

lemma source_ok_init: "source_ok init"
  by (simp add: source_ok_def init_def)

lemma stopPlayback_ok:
  assumes "source_ok st"
  shows "\<exists>st'. stopPlayback st = Inr st' \<and> \<not> isPlaying st' \<and> audioSourceRef st' = None \<and>
           stopPlayback st' = Inr st' \<and>
           (audioSourceRef st = None \<longrightarrow> st' = st) \<and>
           (\<forall>n. audioSourceRef st = Some n \<longrightarrow>
              stopped (nodes st' ! n) \<and> \<not> connected (nodes st' ! n) \<and>
              n \<notin> set (rendering st') \<and>
              (set (rendering st) \<subseteq> {n} \<longrightarrow> rendering st' = []))"
proof (cases "audioSourceRef st")
  case None
  with assms have np: "\<not> isPlaying st" by (simp add: source_ok_def)
  then have "st\<lparr>isPlaying := False\<rparr> = st" by simp
  with None np show ?thesis by (simp add: stopPlayback_def)
next
  case (Some n)
  with assms have n: "n < length (nodes st)" "started (nodes st ! n)"
    by (simp_all add: source_ok_def)
  let ?ns = "(nodes st)[n := (nodes st ! n)\<lparr>stopped := True, connected := False\<rparr>]"
  let ?st' = "st\<lparr>nodes := ?ns, audioSourceRef := None, isPlaying := False\<rparr>"
  have eq: "stopPlayback st = Inr ?st'"
    using Some n by (simp add: stopPlayback_def node_stop_def node_disconnect_def)
  have again: "stopPlayback ?st' = Inr ?st'"
    by (simp add: stopPlayback_def)
  have node: "stopped (nodes ?st' ! n) \<and> \<not> connected (nodes ?st' ! n) \<and>
      n \<notin> set (rendering ?st')"
    using n by (simp add: rendering_def)
  have only: "rendering ?st' = []" if sub: "set (rendering st) \<subseteq> {n}"
  proof -
    have "\<not> (started (?ns ! m) \<and> \<not> stopped (?ns ! m))" if m: "m < length (nodes st)" for m
    proof (cases "m = n")
      case True
      with n show ?thesis by simp
    next
      case False
      then have same: "?ns ! m = nodes st ! m" by simp
      from False sub have "m \<notin> set (rendering st)" by auto
      with m have "\<not> (started (nodes st ! m) \<and> \<not> stopped (nodes st ! m))"
        by (simp add: rendering_def)
      with same show ?thesis by simp
    qed
    then show ?thesis by (simp add: rendering_def filter_empty_conv)
  qed
  from eq again node only Some show ?thesis by auto
qed

text \<open>
  In every state the page can reach, \<open>stopPlayback\<close> does not throw and leaves the playing
  flag false and the ref cleared; the node the ref named is stopped and disconnected, and
  if it was the only one rendering, nothing renders any more; with no node in the ref the
  call changes nothing; and a second call right after the first succeeds and changes
  nothing.
\<close>

lemma stopPlayback_reachable:
  "\<exists>st'. stopPlayback (run u es init) = Inr st' \<and> \<not> isPlaying st' \<and>
         audioSourceRef st' = None \<and> stopPlayback st' = Inr st' \<and>
         (audioSourceRef (run u es init) = None \<longrightarrow> st' = run u es init) \<and>
         (\<forall>n. audioSourceRef (run u es init) = Some n \<longrightarrow>
            stopped (nodes st' ! n) \<and> \<not> connected (nodes st' ! n) \<and>
            n \<notin> set (rendering st') \<and>
            (set (rendering (run u es init)) \<subseteq> {n} \<longrightarrow> rendering st' = []))"
  by (rule stopPlayback_ok[OF source_ok_run[OF source_ok_init]])

lemma double_started_state:
  "double_started =
     story_ready\<lparr>audioContextRef := Some Running, audioSourceRef := Some 1, isPlaying := True,
       nodes := [sample_node, sample_node],
       calls := calls story_ready @
         [SpeechCall [0x4F, 0x6E, 0x63, 0x65], SpeechCall [0x4F, 0x6E, 0x63, 0x65]]\<rparr>"
  unfolding double_started_def run_append run_choose_and_generate run_read_aloud_twice
    second_speech_settles
  by (rule refl)

lemma stop_double_started:
  "stopPlayback double_started =
     Inr (story_ready\<lparr>audioContextRef := Some Running,
            nodes := [sample_node, sample_node\<lparr>stopped := True, connected := False\<rparr>],
            calls := calls story_ready @
              [SpeechCall [0x4F, 0x6E, 0x63, 0x65], SpeechCall [0x4F, 0x6E, 0x63, 0x65]]\<rparr>)"
  unfolding double_started_state
  by (simp add: stopPlayback_def node_stop_def node_disconnect_def story_ready_def
      sample_node_def)

text \<open>
  C7. The claim is that \<open>stop()\<close> never errors, is idempotent, and, if playing, halts
  rendering, releases the source and sets the playing flag to false. On every reachable
  state the call does succeed, twice in a row as well, and it stops the node the ref names.
  But after the double start of C1 the ref names node 1 only: the page is playing, nodes 0
  and 1 render, and \<open>stopPlayback\<close> returns with the playing flag false and the ref cleared
  while node 0 is still started, connected, not stopped, and rendering.
\<close>

theorem stop_leaves_first_source_rendering:
  "isPlaying double_started \<and> audioSourceRef double_started = Some 1 \<and>
   rendering double_started = [0, 1] \<and>
   \<not> isl (stopPlayback double_started) \<and>
   \<not> isPlaying (projr (stopPlayback double_started)) \<and>
   audioSourceRef (projr (stopPlayback double_started)) = None \<and>
   rendering (projr (stopPlayback double_started)) = [0] \<and>
   started (nodes (projr (stopPlayback double_started)) ! 0) \<and>
   connected (nodes (projr (stopPlayback double_started)) ! 0) \<and>
   \<not> stopped (nodes (projr (stopPlayback double_started)) ! 0)"
proof -
  have before: "isPlaying double_started \<and> audioSourceRef double_started = Some 1 \<and>
      rendering double_started = [0, 1]"
    unfolding double_started_state by (simp add: rendering_two)
  have after: "\<not> isl (stopPlayback double_started) \<and>
      \<not> isPlaying (projr (stopPlayback double_started)) \<and>
      audioSourceRef (projr (stopPlayback double_started)) = None \<and>
      rendering (projr (stopPlayback double_started)) = [0] \<and>
      started (nodes (projr (stopPlayback double_started)) ! 0) \<and>
      connected (nodes (projr (stopPlayback double_started)) ! 0) \<and>
      \<not> stopped (nodes (projr (stopPlayback double_started)) ! 0)"
    unfolding stop_double_started
    by (simp add: rendering_def sample_node_def story_ready_def upt_rec)
  from before after show ?thesis by simp
qed

section \<open>The story of an image\<close>

lemma story_handleImageChange: "story (handleImageChange files st) = story st"
  by (simp add: handleImageChange_def split: option.splits list.splits)

lemma story_stopPlayback: "stopPlayback st = Inr st' \<Longrightarrow> story st' = story st"
  by (auto simp: stopPlayback_def split: option.splits sum.splits)

lemma story_handleTogglePlayback: "story (handleTogglePlayback c st) = story st"
  by (auto simp: handleTogglePlayback_def audio_catch_def speech_call_def Let_def
      story_stopPlayback split: sum.splits option.splits)

lemma story_resume_settled: "story (resume_settled txt r st) = story st"
  by (simp add: resume_settled_def audio_catch_def speech_call_def split: option.splits)

lemma story_speech_settled: "story (speech_settled u r st) = story st"
  by (simp add: speech_settled_def audio_catch_def play_source_def Let_def
      split: prod.splits sum.splits)

lemma story_settle: "story (settle i st) = story st"
  by (simp add: settle_def)

lemma story_reader_onload: "story (reader_onload f st) = []"
  by (simp add: reader_onload_def Let_def)

lemma story_story_settled:
  "story (story_settled r st) =
     (case snd (generateStoryFromImage r) of Inl e \<Rightarrow> story st | Inr t \<Rightarrow> t)"
  by (simp add: story_settled_def split: prod.splits sum.splits)

lemma story_changes:
  assumes "story (step u ev st) \<noteq> story st"
  shows "(\<exists>i. ev = ReaderLoaded i \<and> story (step u ev st) = []) \<or>
         (\<exists>i r. ev = StorySettled i r \<and>
                snd (generateStoryFromImage r) = Inr (story (step u ev st)))"
proof (cases ev)
  case (FileChosen files)
  with assms show ?thesis by (simp add: story_handleImageChange split: if_splits)
next
  case (ReaderLoaded i)
  with assms show ?thesis
    by (auto simp: story_reader_onload split: option.splits pending_op.splits)
next
  case (StorySettled i r)
  with assms show ?thesis
    by (auto simp: story_story_settled story_settle
        split: option.splits pending_op.splits sum.splits)
next
  case (PlaybackClicked c)
  with assms show ?thesis by (simp add: story_handleTogglePlayback split: if_splits)
next
  case (ResumeSettled i r)
  with assms show ?thesis
    by (auto simp: story_resume_settled story_settle split: option.splits pending_op.splits)
next
  case (SpeechSettled i r)
  with assms show ?thesis
    by (auto simp: story_speech_settled story_settle split: option.splits pending_op.splits)
next
  case (SourceEnded n)
  with assms show ?thesis by (simp add: source_onended_def split: if_splits)
qed

lemma story_stays_unset:
  assumes "story st = []" and "\<forall>ev\<in>set es. \<not> story_call_succeeds ev"
  shows "story (run u es st) = []"
  using assms
proof (induction es arbitrary: st)
  case Nil
  then show ?case by simp
next
  case (Cons ev es)
  have "story (step u ev st) = []"
  proof (rule ccontr)
    assume ne: "story (step u ev st) \<noteq> []"
    with Cons.prems(1) have "story (step u ev st) \<noteq> story st" by simp
    from story_changes[OF this] ne obtain i r where
      "ev = StorySettled i r" "snd (generateStoryFromImage r) = Inr (story (step u ev st))"
      by auto
    then have "story_call_succeeds ev" by simp
    with Cons.prems(2) show False by simp
  qed
  with Cons show ?case by simp
qed

lemma run_overlapping_choices:
  "run sample_utils overlapping_choices init =
     story_ready\<lparr>image_st := Some ''data:image/png;base64,AA=='',
       calls := [StoryCall ''data:image/jpeg;base64,AA=='' ''image/jpeg'',
                 StoryCall ''data:image/png;base64,AA=='' ''image/png''],
       pending := [AwaitStory]\<rparr>"
  by (simp add: overlapping_choices_def app_defs)

text \<open>
  C8, as stated, fails. The claim is that the story is set only upon the successful
  completion of the call made for the selected image, and remains unset when that call
  fails. A second file can be chosen before the reader has loaded the first, since the
  input is disabled only from the load on. Here a JPEG and then a PNG are chosen, both are
  read, and the JPEG's call succeeds; the page shows the PNG with one call in flight. When
  that call fails, the story is the JPEG's text, with the status Error.
\<close>

theorem story_set_after_failure:
  "image_st (run sample_utils overlapping_choices init) = Some ''data:image/png;base64,AA=='' \<and>
   pending (run sample_utils overlapping_choices init) = [AwaitStory] \<and>
   snd (generateStoryFromImage (Inl (JsError ''network''))) =
     Inl (JsError ''Failed to communicate with the Gemini API for story generation.'') \<and>
   story (step sample_utils (StorySettled 0 (Inl (JsError ''network'')))
            (run sample_utils overlapping_choices init)) = [0x4F, 0x6E, 0x63, 0x65] \<and>
   status (step sample_utils (StorySettled 0 (Inl (JsError ''network'')))
            (run sample_utils overlapping_choices init)) = Error \<and>
   image_st (step sample_utils (StorySettled 0 (Inl (JsError ''network'')))
            (run sample_utils overlapping_choices init)) = Some ''data:image/png;base64,AA=='' "
  unfolding run_overlapping_choices
  by (simp add: app_defs)

text \<open>
  C8, amended. When the reader has loaded a newly chosen image, the story is cleared, the
  status is LoadingStory and the story-generation call is issued, to settle in a later
  event. When a story call succeeds the story is its generated text and the status is
  Idle; when one fails the story is left as it was and the status is Error, so the story
  stays unset through any events after the clearing among which no story call, of this
  or of an earlier selection, completes successfully. No event of the page changes the
  story except the reader's load, which clears it, and the successful completion of a
  story call, which sets it to the generated text.
\<close>

theorem story_lifecycle:
  "story (reader_onload f st) = [] \<and> status (reader_onload f st) = LoadingStory \<and>
   calls (reader_onload f st) = calls st @ [StoryCall (file_dataURL f) (file_type f)] \<and>
   pending (reader_onload f st) = pending st @ [AwaitStory] \<and>
   (\<forall>t. snd (generateStoryFromImage settled) = Inr t \<longrightarrow>
        story (story_settled settled st1) = t \<and> status (story_settled settled st1) = Idle) \<and>
   (\<forall>e. snd (generateStoryFromImage settled) = Inl e \<longrightarrow>
        story (story_settled settled st1) = story st1 \<and>
        status (story_settled settled st1) = Error \<and>
        story (story_settled settled (reader_onload f st)) = []) \<and>
   ((\<forall>ev\<in>set es. \<not> story_call_succeeds ev) \<longrightarrow>
        story (run u es (reader_onload f st)) = []) \<and>
   (story (step u ev st2) \<noteq> story st2 \<longrightarrow>
      (\<exists>i. ev = ReaderLoaded i \<and> story (step u ev st2) = []) \<or>
      (\<exists>i r. ev = StorySettled i r \<and>
             snd (generateStoryFromImage r) = Inr (story (step u ev st2))))"
proof -
  have a: "story (reader_onload f st) = [] \<and> status (reader_onload f st) = LoadingStory \<and>
      calls (reader_onload f st) = calls st @ [StoryCall (file_dataURL f) (file_type f)] \<and>
      pending (reader_onload f st) = pending st @ [AwaitStory]"
    by (simp add: reader_onload_def Let_def)
  have b: "\<forall>t. snd (generateStoryFromImage settled) = Inr t \<longrightarrow>
        story (story_settled settled st1) = t \<and> status (story_settled settled st1) = Idle"
    by (auto simp: story_settled_def split: prod.splits sum.splits)
  have c: "\<forall>e. snd (generateStoryFromImage settled) = Inl e \<longrightarrow>
        story (story_settled settled st1) = story st1 \<and>
        status (story_settled settled st1) = Error \<and>
        story (story_settled settled (reader_onload f st)) = []"
    by (auto simp: story_settled_def story_reader_onload split: prod.splits sum.splits)
  have d: "story (step u ev st2) \<noteq> story st2 \<longrightarrow>
      (\<exists>i. ev = ReaderLoaded i \<and> story (step u ev st2) = []) \<or>
      (\<exists>i r. ev = StorySettled i r \<and>
             snd (generateStoryFromImage r) = Inr (story (step u ev st2)))"
    using story_changes by blast
  have e: "(\<forall>ev\<in>set es. \<not> story_call_succeeds ev) \<longrightarrow>
        story (run u es (reader_onload f st)) = []"
    using story_stays_unset[OF story_reader_onload] by blast
  from a b c d e show ?thesis by blast
qed

lemma story_response_generated:
  "generateStoryFromImage (Inr story_response) = ([], Inr [0x4F, 0x6E, 0x63, 0x65])"
  by (simp add: generateStoryFromImage_def story_response_def trim_def isWhiteSpace_def)

theorem story_lifecycle_witness:
  "snd (generateStoryFromImage (Inr story_response)) = Inr [0x4F, 0x6E, 0x63, 0x65] \<and>
   snd (generateStoryFromImage (Inl (JsError ''network''))) =
     Inl (JsError ''Failed to communicate with the Gemini API for story generation.'') \<and>
   \<not> story_call_succeeds (PlaybackClicked (Inr Running)) \<and>
   \<not> story_call_succeeds (StorySettled 0 (Inl (JsError ''network''))) \<and>
   story (reader_onload jpeg_file story_ready) = [] \<and>
   story (story_settled (Inr story_response) (reader_onload jpeg_file story_ready)) =
     [0x4F, 0x6E, 0x63, 0x65] \<and>
   status (story_settled (Inr story_response) (reader_onload jpeg_file story_ready)) = Idle \<and>
   story (story_settled (Inl (JsError ''network'')) (reader_onload jpeg_file story_ready)) = [] \<and>
   status (story_settled (Inl (JsError ''network'')) (reader_onload jpeg_file story_ready)) =
     Error \<and>
   story (run sample_utils
            [PlaybackClicked (Inr Running), StorySettled 0 (Inl (JsError ''network''))]
            (reader_onload jpeg_file story_ready)) = [] \<and>
   story (step sample_utils (ReaderLoaded 0) (story_ready\<lparr>pending := [AwaitRead jpeg_file]\<rparr>))
     \<noteq> story (story_ready\<lparr>pending := [AwaitRead jpeg_file]\<rparr>) \<and>
   story (step sample_utils (ReaderLoaded 0) (story_ready\<lparr>pending := [AwaitRead jpeg_file]\<rparr>))
     = []"
proof -
  have ok: "snd (generateStoryFromImage (Inr story_response)) = Inr [0x4F, 0x6E, 0x63, 0x65]"
    by (simp add: story_response_generated)
  have ko: "snd (generateStoryFromImage (Inl (JsError ''network''))) =
     Inl (JsError ''Failed to communicate with the Gemini API for story generation.'')"
    by (simp add: generateStoryFromImage_def)
  have no: "\<forall>ev\<in>set [PlaybackClicked (Inr Running), StorySettled 0 (Inl (JsError ''network''))].
      \<not> story_call_succeeds ev"
    by (simp add: ko)
  have ch: "story (step sample_utils (ReaderLoaded 0)
                (story_ready\<lparr>pending := [AwaitRead jpeg_file]\<rparr>))
     \<noteq> story (story_ready\<lparr>pending := [AwaitRead jpeg_file]\<rparr>)"
    by (simp add: pending_at_def story_reader_onload story_ready_def)
  show ?thesis
    using ok ko no ch
      story_lifecycle[of jpeg_file story_ready "Inr story_response"
        "reader_onload jpeg_file story_ready"
        "[PlaybackClicked (Inr Running), StorySettled 0 (Inl (JsError ''network''))]"
        sample_utils "ReaderLoaded 0" "story_ready\<lparr>pending := [AwaitRead jpeg_file]\<rparr>"]
      story_lifecycle[of jpeg_file story_ready "Inl (JsError ''network'')"
        "reader_onload jpeg_file story_ready"
        "[PlaybackClicked (Inr Running), StorySettled 0 (Inl (JsError ''network''))]"
        sample_utils "ReaderLoaded 0" "story_ready\<lparr>pending := [AwaitRead jpeg_file]\<rparr>"]
    by auto
qed

section \<open>The generated story is trimmed\<close>

lemma last_dropWhile: "dropWhile P xs \<noteq> [] \<Longrightarrow> last (dropWhile P xs) = last xs"
  by (induction xs) auto

lemma rev_split: "rev (dropWhile P ys) @ rev (takeWhile P ys) = rev ys"
proof -
  have "rev (takeWhile P ys @ dropWhile P ys) = rev ys"
    by (simp only: takeWhile_dropWhile_id)
  then show ?thesis by (simp only: rev_append)
qed

lemma trim_decompose:
  "\<exists>pre suf. t = pre @ trim t @ suf \<and> list_all isWhiteSpace pre \<and> list_all isWhiteSpace suf"
proof -
  let ?d = "dropWhile isWhiteSpace t"
  let ?suf = "rev (takeWhile isWhiteSpace (rev ?d))"
  have d: "?d = trim t @ ?suf"
    using rev_split[of isWhiteSpace "rev ?d"] by (simp add: trim_def)
  have "t = takeWhile isWhiteSpace t @ ?d" by simp
  with d have "t = takeWhile isWhiteSpace t @ trim t @ ?suf" by simp
  moreover have "list_all isWhiteSpace (takeWhile isWhiteSpace t)"
    by (auto simp: list_all_iff dest: set_takeWhileD)
  moreover have "list_all isWhiteSpace ?suf"
    by (auto simp: list_all_iff dest: set_takeWhileD)
  ultimately show ?thesis by blast
qed

lemma trim_ends:
  assumes "trim t \<noteq> []"
  shows "\<not> isWhiteSpace (hd (trim t)) \<and> \<not> isWhiteSpace (last (trim t))"
proof -
  let ?d = "dropWhile isWhiteSpace t"
  let ?e = "dropWhile isWhiteSpace (rev ?d)"
  from assms have e: "?e \<noteq> []" by (simp add: trim_def)
  have d: "?d \<noteq> []"
  proof
    assume "?d = []"
    then have "?e = []" by (simp only: rev.simps(1) dropWhile.simps(1))
    with e show False by simp
  qed
  have "last (trim t) = hd ?e" using e by (simp add: trim_def last_rev)
  moreover have "\<not> isWhiteSpace (hd ?e)" using e by (rule hd_dropWhile)
  moreover have "hd (trim t) = last ?e" using e by (simp add: trim_def hd_rev)
  moreover have "last ?e = last (rev ?d)" using e by (rule last_dropWhile)
  moreover have "last (rev ?d) = hd ?d" using d by (simp add: last_rev)
  moreover have "\<not> isWhiteSpace (hd ?d)" using d by (rule hd_dropWhile)
  ultimately show ?thesis by simp
qed

text \<open>
  C9. When the story call succeeds, that is the service answers with a text t, the function
  returns t with its leading and trailing white space removed: t is white space, then the
  result, then white space, and the result, unless empty, neither begins nor ends with a
  white-space code unit. That result is what the component stores as the story.
\<close>

theorem story_trimmed:
  assumes "response_text r = Some t"
  shows "generateStoryFromImage (Inr r) = ([], Inr (trim t)) \<and>
         story (story_settled (Inr r) st) = trim t \<and>
         (\<exists>pre suf. t = pre @ trim t @ suf \<and>
            list_all isWhiteSpace pre \<and> list_all isWhiteSpace suf) \<and>
         (trim t \<noteq> [] \<longrightarrow>
            \<not> isWhiteSpace (hd (trim t)) \<and> \<not> isWhiteSpace (last (trim t)))"
proof -
  have g: "generateStoryFromImage (Inr r) = ([], Inr (trim t))"
    using assms by (simp add: generateStoryFromImage_def)
  then have s: "story (story_settled (Inr r) st) = trim t"
    by (simp add: story_settled_def)
  from g s trim_decompose[of t] trim_ends[of t] show ?thesis by blast
qed

theorem story_trimmed_witness:
  "response_text story_response = Some [0x20, 0x4F, 0x6E, 0x63, 0x65, 0x0A] \<and>
   trim [0x20, 0x4F, 0x6E, 0x63, 0x65, 0x0A] = [0x4F, 0x6E, 0x63, 0x65] \<and>
   generateStoryFromImage (Inr story_response) = ([], Inr [0x4F, 0x6E, 0x63, 0x65]) \<and>
   story (story_settled (Inr story_response) init) = [0x4F, 0x6E, 0x63, 0x65] \<and>
   \<not> isWhiteSpace (hd (trim [0x20, 0x4F, 0x6E, 0x63, 0x65, 0x0A])) \<and>
   \<not> isWhiteSpace (last (trim [0x20, 0x4F, 0x6E, 0x63, 0x65, 0x0A]))"
proof -
  have h: "response_text story_response = Some [0x20, 0x4F, 0x6E, 0x63, 0x65, 0x0A]"
    by (simp add: story_response_def)
  have t: "trim [0x20, 0x4F, 0x6E, 0x63, 0x65, 0x0A] = [0x4F, 0x6E, 0x63, 0x65]"
    by (simp add: trim_def isWhiteSpace_def)
  have ne: "trim [0x20, 0x4F, 0x6E, 0x63, 0x65, 0x0A] \<noteq> []"
    by (simp add: t)
  from story_trimmed[OF h, of init] ne h t show ?thesis by (simp only: t) simp
qed

end
